theory Spec2Isabelle
  imports Main "HOL-Library.List_Lexorder" "HOL-Library.Char_ord"
begin

section \<open>Python values\<close>

text \<open>
  The values \<^verbatim>\<open>yaml.safe_load\<close> builds for a configuration document, and the values the
  configuration code passes on: \<^verbatim>\<open>None\<close>, booleans, integers, strings, lists and
  dictionaries (in insertion order; a key is any hashable value).  A string is a list of
  code points below 256.  Floats, timestamps and byte strings are left out.
\<close>

datatype pyval = PNone | PBool bool | PInt int | PStr string
  | PList "pyval list" | PDict "(pyval \<times> pyval) list"

text \<open>
  The exceptions the two functions can end with.  \<open>OSError\<close> stands for an \<^verbatim>\<open>OSError\<close> of
  any subclass but \<^verbatim>\<open>FileNotFoundError\<close> (\<^verbatim>\<open>PermissionError\<close>, \<^verbatim>\<open>IsADirectoryError\<close>, a
  name that is too long).
\<close>

datatype py_error = FileNotFoundError | RuntimeError | OSError | YAMLError
  | AttributeError | TypeError | ValueError | NotImplementedError

definition and_then :: "'e + 'a \<Rightarrow> ('a \<Rightarrow> 'e + 'b) \<Rightarrow> 'e + 'b" where
  "and_then r f = (case r of Inl e \<Rightarrow> Inl e | Inr x \<Rightarrow> f x)"

text \<open>\<^verbatim>\<open>bool(v)\<close>, and \<^verbatim>\<open>a or b\<close>.\<close>

fun truthy :: "pyval \<Rightarrow> bool" where
  "truthy PNone = False"
| "truthy (PBool b) = b"
| "truthy (PInt n) = (n \<noteq> 0)"
| "truthy (PStr s) = (s \<noteq> [])"
| "truthy (PList xs) = (xs \<noteq> [])"
| "truthy (PDict kvs) = (kvs \<noteq> [])"

definition py_or :: "pyval \<Rightarrow> pyval \<Rightarrow> pyval" where
  "py_or a b = (if truthy a then a else b)"

text \<open>
  \<^verbatim>\<open>d.get(k, default)\<close> for a string key: only a dictionary has the method; on any other
  value the attribute lookup raises.
\<close>

fun dict_get :: "pyval \<Rightarrow> string \<Rightarrow> pyval \<Rightarrow> py_error + pyval" where
  "dict_get (PDict kvs) k d = Inr (case map_of kvs (PStr k) of Some v \<Rightarrow> v | None \<Rightarrow> d)"
| "dict_get v k d = Inl AttributeError"

text \<open>\<^verbatim>\<open>list(v)\<close>: the elements of a list, the keys of a dictionary, the characters of a string.\<close>

fun py_list :: "pyval \<Rightarrow> py_error + pyval list" where
  "py_list (PList xs) = Inr xs"
| "py_list (PDict kvs) = Inr (map fst kvs)"
| "py_list (PStr s) = Inr (map (\<lambda>c. PStr [c]) s)"
| "py_list v = Inl TypeError"

text \<open>\<^verbatim>\<open>str(v)\<close> and \<^verbatim>\<open>repr(v)\<close>.\<close>

fun str_nat :: "nat \<Rightarrow> string" where
  "str_nat n = (if n < 10 then [char_of (48 + n)]
                else str_nat (n div 10) @ [char_of (48 + n mod 10)])"

declare str_nat.simps [simp del]

definition str_int :: "int \<Rightarrow> string" where
  "str_int i = (if i < 0 then ''-'' @ str_nat (nat (- i)) else str_nat (nat i))"

fun join :: "string \<Rightarrow> string list \<Rightarrow> string" where
  "join sep [] = []"
| "join sep [x] = x"
| "join sep (x # y # ys) = x @ sep @ join sep (y # ys)"

definition hex_digit :: "nat \<Rightarrow> char" where
  "hex_digit d = (if d < 10 then char_of (48 + d) else char_of (87 + d))"

definition printable :: "char \<Rightarrow> bool" where
  "printable c = (let n = (of_char c :: nat) in
     (32 \<le> n \<and> n < 127) \<or> (161 \<le> n \<and> n \<noteq> 173))"

definition repr_char :: "char \<Rightarrow> char \<Rightarrow> string" where
  "repr_char q c =
     (if c = q \<or> c = CHR 0x5C then [CHR 0x5C, c]
      else if c = CHR 0x09 then [CHR 0x5C, CHR ''t'']
      else if c = CHR 0x0A then [CHR 0x5C, CHR ''n'']
      else if c = CHR 0x0D then [CHR 0x5C, CHR ''r'']
      else if printable c then [c]
      else [CHR 0x5C, CHR ''x'', hex_digit (of_char c div 16), hex_digit (of_char c mod 16)])"

definition repr_str :: "string \<Rightarrow> string" where
  "repr_str s =
     (let q = (if CHR 0x27 \<in> set s \<and> CHR 0x22 \<notin> set s then CHR 0x22 else CHR 0x27)
      in [q] @ concat (map (repr_char q) s) @ [q])"

fun py_repr :: "pyval \<Rightarrow> string" where
  "py_repr PNone = ''None''"
| "py_repr (PBool b) = (if b then ''True'' else ''False'')"
| "py_repr (PInt i) = str_int i"
| "py_repr (PStr s) = repr_str s"
| "py_repr (PList xs) = ''['' @ join '', '' (map py_repr xs) @ '']''"
| "py_repr (PDict kvs) =
     ''{'' @ join '', '' (map (\<lambda>(k, v). py_repr k @ '': '' @ py_repr v) kvs) @ ''}''"

definition py_str :: "pyval \<Rightarrow> string" where
  "py_str v = (case v of PStr s \<Rightarrow> s | _ \<Rightarrow> py_repr v)"

text \<open>\<^verbatim>\<open>s.lower()\<close> on code points below 256: A to Z, and the capital letters of Latin-1.\<close>

definition lower_char :: "char \<Rightarrow> char" where
  "lower_char c = (let n = (of_char c :: nat) in
     if (65 \<le> n \<and> n \<le> 90) \<or> (192 \<le> n \<and> n \<le> 222 \<and> n \<noteq> 215)
     then char_of (n + 32) else c)"

definition py_lower :: "string \<Rightarrow> string" where
  "py_lower s = map lower_char s"

section \<open>Data classes for configuration\<close>

text \<open>
  The four data classes.  \<^verbatim>\<open>include\<close> is declared a list of strings; at run time it
  holds whatever \<^verbatim>\<open>list(...)\<close> made of the document's value, so its elements are Python
  values.
\<close>

record SourceConfig =
  path :: string
  include' :: "pyval list"

record CleaningConfig =
  drop_duplicates :: bool
  trim_whitespace :: bool
  normalize_unicode :: bool
  remove_empty :: bool
  lower_keys :: bool

record ExportConfig =
  format :: string
  output_dir :: string
  filename :: string

record AppConfig =
  sources :: "SourceConfig list"
  cleaning :: CleaningConfig
  export :: ExportConfig

definition default_include :: "pyval list" where
  "default_include = [PStr ''*.jsonl'', PStr ''*.json'', PStr ''*.csv'']"

definition SourceConfig_init :: "string \<Rightarrow> SourceConfig" where
  "SourceConfig_init p = \<lparr>path = p, include' = default_include\<rparr>"

definition CleaningConfig_init :: CleaningConfig where
  "CleaningConfig_init = \<lparr>drop_duplicates = True, trim_whitespace = True,
     normalize_unicode = True, remove_empty = True, lower_keys = False\<rparr>"

definition ExportConfig_init :: ExportConfig where
  "ExportConfig_init = \<lparr>format = ''parquet'', output_dir = ''./data/processed'',
     filename = ''dataset''\<rparr>"

definition AppConfig_init :: AppConfig where
  "AppConfig_init = \<lparr>sources = [SourceConfig_init ''./data/raw''],
     cleaning = CleaningConfig_init, export = ExportConfig_init\<rparr>"

section \<open>The platform\<close>

text \<open>
  What the interpreter, \<^verbatim>\<open>pathlib\<close>, the YAML library and the filesystem answer.  A path
  is the list of its components, which is what \<^verbatim>\<open>pathlib\<close> compares, so the order of paths
  is the lexicographic order of the component lists, each component compared as a string.

  \<^item> \<open>yaml_installed\<close>: the module-level name \<^verbatim>\<open>yaml\<close> is not \<^verbatim>\<open>None\<close>;
  \<^item> \<open>to_path s\<close>: \<^verbatim>\<open>Path(s)\<close>;
  \<^item> \<open>resolve p\<close>: the kind of entry \<open>p\<close> leads to, symbolic links followed; \<open>None\<close> when
    there is none;
  \<^item> \<open>stat_fails p\<close>: examining \<open>p\<close> fails with an error other than the four that mean
    "nothing there" (a name that is too long, a directory that may not be searched);
    \<^verbatim>\<open>exists()\<close>, \<^verbatim>\<open>is_dir()\<close> and \<^verbatim>\<open>is_file()\<close> raise it again;
  \<^item> \<open>read_yaml p\<close>: opening \<open>p\<close> and running \<^verbatim>\<open>yaml.safe_load\<close> on it: the document, or
    the exception of \<^verbatim>\<open>open\<close> or of the parser;
  \<^item> \<open>pattern_error pat\<close>: the exception with which \<^verbatim>\<open>rglob\<close> rejects a pattern before it
    reads any directory (a pattern that is not relative, or not a string), if it does;
  \<^item> \<open>walk base pat\<close>: the entries under the directory \<open>base\<close> that match \<open>pat\<close>, in the
    order the directory scan yields them.
\<close>

type_synonym fspath = "string list"

datatype node = RegularFile | Directory | OtherNode

record platform =
  yaml_installed :: bool
  to_path :: "string \<Rightarrow> fspath"
  resolve :: "fspath \<Rightarrow> node option"
  stat_fails :: "fspath \<Rightarrow> bool"
  read_yaml :: "fspath \<Rightarrow> py_error + pyval"
  pattern_error :: "pyval \<Rightarrow> py_error option"
  walk :: "fspath \<Rightarrow> pyval \<Rightarrow> fspath list"

text \<open>
  The filesystem operations a call performs, in order.  \<open>OpMkdir\<close> is what
  \<^verbatim>\<open>ensure_dir\<close> does and \<open>OpWrite\<close> the writing of a file; the other four only read.
\<close>

datatype fs_op = OpExists fspath | OpRead fspath | OpRglob fspath pyval
  | OpIsFile fspath | OpMkdir fspath | OpWrite fspath


text \<open>\<^verbatim>\<open>p.exists()\<close>, \<^verbatim>\<open>p.is_dir()\<close> and \<^verbatim>\<open>p.is_file()\<close>: the answer, or the error raised again.\<close>

definition exists_path :: "platform \<Rightarrow> fspath \<Rightarrow> py_error + bool" where
  "exists_path pf p = (if stat_fails pf p then Inl OSError else Inr (resolve pf p \<noteq> None))"

definition is_dir :: "platform \<Rightarrow> fspath \<Rightarrow> py_error + bool" where
  "is_dir pf p = (if stat_fails pf p then Inl OSError else Inr (resolve pf p = Some Directory))"

definition is_file :: "platform \<Rightarrow> fspath \<Rightarrow> py_error + bool" where
  "is_file pf p = (if stat_fails pf p then Inl OSError else Inr (resolve pf p = Some RegularFile))"

section \<open>YAML loading\<close>

text \<open>One source object: \<^verbatim>\<open>SourceConfig(path=str(s.get("path", ...)), include=list(s.get("include", ...)))\<close>.\<close>

definition source_of :: "pyval \<Rightarrow> py_error + SourceConfig" where
  "source_of s =
     and_then (dict_get s ''path'' (PStr ''./data/raw'')) (\<lambda>p.
     and_then (dict_get s ''include'' (PList default_include)) (\<lambda>i.
     and_then (py_list i) (\<lambda>inc.
     Inr \<lparr>path = py_str p, include' = inc\<rparr>)))"

text \<open>The loop over a list of sources: an entry that is not a dictionary is skipped.\<close>

fun sources_of_list :: "pyval list \<Rightarrow> py_error + SourceConfig list" where
  "sources_of_list [] = Inr []"
| "sources_of_list (PDict kvs # rest) =
     and_then (source_of (PDict kvs)) (\<lambda>c.
     and_then (sources_of_list rest) (\<lambda>cs. Inr (c # cs)))"
| "sources_of_list (s # rest) = sources_of_list rest"

definition parse_sources :: "pyval \<Rightarrow> py_error + SourceConfig list" where
  "parse_sources data =
     and_then (dict_get data ''sources'' PNone) (\<lambda>a.
     and_then (if truthy a then Inr a else dict_get data ''source'' PNone) (\<lambda>sources_raw.
       case sources_raw of
         PList xs \<Rightarrow> sources_of_list xs
       | PDict kvs \<Rightarrow> and_then (source_of sources_raw) (\<lambda>c. Inr [c])
       | _ \<Rightarrow> Inr [SourceConfig_init ''./data/raw'']))"

definition parse_cleaning :: "pyval \<Rightarrow> py_error + CleaningConfig" where
  "parse_cleaning data =
     and_then (dict_get data ''cleaning'' (PDict [])) (\<lambda>c.
     let cl = py_or c (PDict []) in
     and_then (dict_get cl ''drop_duplicates'' (PBool True)) (\<lambda>dd.
     and_then (dict_get cl ''trim_whitespace'' (PBool True)) (\<lambda>tw.
     and_then (dict_get cl ''normalize_unicode'' (PBool True)) (\<lambda>nu.
     and_then (dict_get cl ''remove_empty'' (PBool True)) (\<lambda>re.
     and_then (dict_get cl ''lower_keys'' (PBool False)) (\<lambda>lk.
     Inr \<lparr>drop_duplicates = truthy dd, trim_whitespace = truthy tw,
          normalize_unicode = truthy nu, remove_empty = truthy re,
          lower_keys = truthy lk\<rparr>))))))"

definition parse_export :: "pyval \<Rightarrow> py_error + ExportConfig" where
  "parse_export data =
     and_then (dict_get data ''export'' (PDict [])) (\<lambda>e.
     let ex = py_or e (PDict []) in
     and_then (dict_get ex ''format'' (PStr ''parquet'')) (\<lambda>f.
     and_then (dict_get ex ''output_dir'' (PStr ''./data/processed'')) (\<lambda>od.
     and_then (dict_get ex ''filename'' (PStr ''dataset'')) (\<lambda>fn.
     Inr \<lparr>format = py_lower (py_str f), output_dir = py_str od,
          filename = py_str fn\<rparr>))))"

text \<open>The part of \<^verbatim>\<open>load_config\<close> after the document is read: \<open>data\<close> is \<^verbatim>\<open>yaml.safe_load(f) or {}\<close>.\<close>

definition config_of_data :: "pyval \<Rightarrow> py_error + AppConfig" where
  "config_of_data data =
     and_then (parse_sources data) (\<lambda>ss.
     and_then (parse_cleaning data) (\<lambda>cl.
     and_then (parse_export data) (\<lambda>ex.
     Inr \<lparr>sources = ss, cleaning = cl, export = ex\<rparr>)))"

text \<open>
  \<^verbatim>\<open>load_config(config_path)\<close>: the filesystem operations performed, and the configuration
  or the exception.
\<close>

definition load_config :: "platform \<Rightarrow> fspath option \<Rightarrow> fs_op list \<times> (py_error + AppConfig)" where
  "load_config pf config_path =
     (case config_path of
        None \<Rightarrow> ([], Inr AppConfig_init)
      | Some p \<Rightarrow>
          (case exists_path pf p of
             Inl e \<Rightarrow> ([OpExists p], Inl e)
           | Inr found \<Rightarrow>
               if \<not> found then ([OpExists p], Inl FileNotFoundError)
               else if \<not> yaml_installed pf then ([OpExists p], Inl RuntimeError)
               else (case read_yaml pf p of
                       Inl e \<Rightarrow> ([OpExists p, OpRead p], Inl e)
                     | Inr doc \<Rightarrow>
                         ([OpExists p, OpRead p], config_of_data (py_or doc (PDict []))))))"

text \<open>
  A path with a component of more than 255 characters, which a filesystem refuses to
  examine, and a name of 300 characters.
\<close>

definition name_too_long :: "fspath \<Rightarrow> bool" where
  "name_too_long p = list_ex (\<lambda>c. 255 < length c) p"

definition long_name :: string where
  "long_name = replicate 300 (CHR ''x'')"

text \<open>
  A platform on which the configuration file \<^verbatim>\<open>config.yaml\<close> exists and holds the
  document \<open>doc\<close>, with an empty data directory beside it.  A path whose name is too
  long cannot be examined, and opening the directory for reading fails.
\<close>

definition platform_with_document :: "pyval \<Rightarrow> platform" where
  "platform_with_document doc =
     \<lparr>yaml_installed = True,
      to_path = (\<lambda>s. [s]),
      resolve = (\<lambda>p. if p = [''config.yaml''] then Some RegularFile
                      else if p = [''data''] then Some Directory else None),
      stat_fails = name_too_long,
      read_yaml = (\<lambda>p. if p = [''config.yaml''] then Inr doc else Inl OSError),
      pattern_error = (\<lambda>pat. case pat of PStr s \<Rightarrow> None | _ \<Rightarrow> Some TypeError),
      walk = (\<lambda>base pat. [])\<rparr>"



text \<open>The formats the source names in its comment on \<^verbatim>\<open>ExportConfig.format\<close>.\<close>

definition recognized_formats :: "string list" where
  "recognized_formats = [''csv'', ''jsonl'', ''parquet'']"

section \<open>File discovery (glob collect)\<close>

text \<open>\<^verbatim>\<open>src.include or ["*"]\<close>.\<close>

definition patterns_of :: "SourceConfig \<Rightarrow> pyval list" where
  "patterns_of src = (if include' src = [] then [PStr ''*''] else include' src)"

text \<open>
  The innermost loop, \<^verbatim>\<open>for p in ...: if p.is_file(): hits.append(p)\<close>: each entry found
  is asked \<^verbatim>\<open>is_file()\<close> and kept when it is one; an error of \<^verbatim>\<open>is_file()\<close> ends the call.
\<close>

fun keep_files :: "platform \<Rightarrow> fspath list \<Rightarrow> fs_op list \<times> (py_error + fspath list)" where
  "keep_files pf [] = ([], Inr [])"
| "keep_files pf (p # ps) =
     (case is_file pf p of
        Inl e \<Rightarrow> ([OpIsFile p], Inl e)
      | Inr file \<Rightarrow>
          let (ops, r) = keep_files pf ps
          in (OpIsFile p # ops, and_then r (\<lambda>hits. Inr (if file then p # hits else hits))))"

text \<open>
  The loop over the patterns of one source.  \<^verbatim>\<open>base.rglob(pattern)\<close> raises when it
  rejects the pattern, and when \<^verbatim>\<open>is_dir()\<close> of the root raises; otherwise it yields what
  the walk finds when \<open>base\<close> is a directory and nothing when it is not (a missing root
  that can be examined is no error).  An exception ends the whole call.
\<close>

fun collect_patterns ::
  "platform \<Rightarrow> fspath \<Rightarrow> pyval list \<Rightarrow> fs_op list \<times> (py_error + fspath list)" where
  "collect_patterns pf base [] = ([], Inr [])"
| "collect_patterns pf base (pattern # rest) =
     (case pattern_error pf pattern of
        Some e \<Rightarrow> ([], Inl e)
      | None \<Rightarrow>
          (case is_dir pf base of
             Inl e \<Rightarrow> ([OpRglob base pattern], Inl e)
           | Inr dir \<Rightarrow>
               (case keep_files pf (if dir then walk pf base pattern else []) of
                  (ops, Inl e) \<Rightarrow> (OpRglob base pattern # ops, Inl e)
                | (ops, Inr kept) \<Rightarrow>
                    let (ops', r) = collect_patterns pf base rest
                    in (OpRglob base pattern # ops @ ops',
                        and_then r (\<lambda>hits. Inr (kept @ hits))))))"

text \<open>The loop over the sources.\<close>

fun collect_sources ::
  "platform \<Rightarrow> SourceConfig list \<Rightarrow> fs_op list \<times> (py_error + fspath list)" where
  "collect_sources pf [] = ([], Inr [])"
| "collect_sources pf (src # rest) =
     (case collect_patterns pf (to_path pf (path src)) (patterns_of src) of
        (ops, Inl e) \<Rightarrow> (ops, Inl e)
      | (ops, Inr hits) \<Rightarrow>
          let (ops', r) = collect_sources pf rest
          in (ops @ ops', and_then r (\<lambda>hits'. Inr (hits @ hits'))))"

text \<open>\<^verbatim>\<open>collect_files(sources)\<close>: the hits of all sources, then \<^verbatim>\<open>sorted(set(hits))\<close>.\<close>

definition collect_files ::
  "platform \<Rightarrow> SourceConfig list \<Rightarrow> fs_op list \<times> (py_error + fspath list)" where
  "collect_files pf srcs =
     (let (ops, r) = collect_sources pf srcs
      in (ops, and_then r (\<lambda>hits. Inr (sorted_list_of_set (set hits)))))"



text \<open>
  Two outcomes of the loops that differ at most in the order and the repetitions of the
  hits.
\<close>

definition same_files :: "py_error + fspath list \<Rightarrow> py_error + fspath list \<Rightarrow> bool" where
  "same_files r r' = (case (r, r') of
      (Inl e, Inl e') \<Rightarrow> e = e'
    | (Inr hs, Inr hs') \<Rightarrow> set hs = set hs'
    | _ \<Rightarrow> False)"

subsection \<open>An example platform\<close>

text \<open>
  \<^verbatim>\<open>Path(s)\<close> on a POSIX system, as components: empty components and \<^verbatim>\<open>.\<close> are dropped,
  a leading slash is the root.
\<close>

fun split_slash :: "string \<Rightarrow> string \<Rightarrow> string list" where
  "split_slash cur [] = [rev cur]"
| "split_slash cur (c # cs) =
     (if c = CHR ''/'' then rev cur # split_slash [] cs else split_slash (c # cur) cs)"

definition posix_parts :: "string \<Rightarrow> fspath" where
  "posix_parts s = (if take 1 s = ''/'' then [''/''] else []) @
     filter (\<lambda>x. x \<noteq> [] \<and> x \<noteq> ''.'') (split_slash [] s)"

text \<open>
  A tree with the directory \<^verbatim>\<open>data/raw\<close>, in it the files \<^verbatim>\<open>a.csv\<close> and \<^verbatim>\<open>b.json\<close> and
  the directory \<^verbatim>\<open>archive.csv\<close>, which holds the file \<^verbatim>\<open>old.csv\<close>.  \<^verbatim>\<open>rglob\<close> rejects a
  pattern that starts at the root, and one that is no string; a path with a component
  of more than 255 characters cannot be examined.
\<close>

definition example_platform :: platform where
  "example_platform =
     \<lparr>yaml_installed = True,
      to_path = posix_parts,
      resolve = (\<lambda>p.
        if p \<in> set [[''data''], [''data'', ''raw''], [''data'', ''raw'', ''archive.csv'']]
        then Some Directory
        else if p \<in> set [[''data'', ''raw'', ''a.csv''], [''data'', ''raw'', ''b.json''],
                          [''data'', ''raw'', ''archive.csv'', ''old.csv'']]
        then Some RegularFile
        else None),
      stat_fails = name_too_long,
      read_yaml = (\<lambda>p. Inl OSError),
      pattern_error = (\<lambda>pat. case pat of
          PStr s \<Rightarrow> if take 1 s = ''/'' then Some NotImplementedError else None
        | _ \<Rightarrow> Some TypeError),
      walk = (\<lambda>base pat.
        if base = [''data'', ''raw''] \<and> pat = PStr ''*.csv''
        then [[''data'', ''raw'', ''archive.csv''],
              [''data'', ''raw'', ''archive.csv'', ''old.csv''],
              [''data'', ''raw'', ''a.csv'']]
        else if base = [''data'', ''raw''] \<and> pat = PStr ''a*''
        then [[''data'', ''raw'', ''archive.csv''], [''data'', ''raw'', ''a.csv'']]
        else if base = [''data'', ''raw''] \<and> pat = PStr ''*''
        then [[''data'', ''raw'', ''b.json''],
              [''data'', ''raw'', ''archive.csv''],
              [''data'', ''raw'', ''archive.csv'', ''old.csv''],
              [''data'', ''raw'', ''a.csv'']]
        else [])\<rparr>"

text \<open>The same tree, with every directory scan yielding its entries in the opposite order.\<close>

definition example_platform_reversed :: platform where
  "example_platform_reversed =
     example_platform\<lparr>walk := (\<lambda>base pat. rev (walk example_platform base pat))\<rparr>"

definition example_sources :: "SourceConfig list" where
  "example_sources =
     [\<lparr>path = ''./data/raw'', include' = [PStr ''*.csv'', PStr ''a*'']\<rparr>,
      \<lparr>path = ''data/raw/'', include' = []\<rparr>]"



text \<open>
  A tree with the directories \<^verbatim>\<open>data/raw\<close> and \<^verbatim>\<open>data/raw-2\<close>, each holding a file
  \<^verbatim>\<open>x.csv\<close>, and the one source \<^verbatim>\<open>data\<close>.
\<close>

definition hyphen_platform :: platform where
  "hyphen_platform =
     \<lparr>yaml_installed = True,
      to_path = posix_parts,
      resolve = (\<lambda>p.
        if p \<in> set [[''data''], [''data'', ''raw''], [''data'', ''raw-2'']]
        then Some Directory
        else if p \<in> set [[''data'', ''raw'', ''x.csv''], [''data'', ''raw-2'', ''x.csv'']]
        then Some RegularFile
        else None),
      stat_fails = name_too_long,
      read_yaml = (\<lambda>p. Inl OSError),
      pattern_error = (\<lambda>pat. case pat of
          PStr s \<Rightarrow> if take 1 s = ''/'' then Some NotImplementedError else None
        | _ \<Rightarrow> Some TypeError),
      walk = (\<lambda>base pat.
        if base = [''data''] \<and> pat = PStr ''*.csv''
        then [[''data'', ''raw-2'', ''x.csv''], [''data'', ''raw'', ''x.csv'']]
        else [])\<rparr>"

definition hyphen_sources :: "SourceConfig list" where
  "hyphen_sources = [\<lparr>path = ''data'', include' = [PStr ''*.csv'']\<rparr>]"

text \<open>\<^verbatim>\<open>str(p)\<close>: the full path as one string, the components joined by slashes.\<close>

definition path_str :: "fspath \<Rightarrow> string" where
  "path_str p = (case p of
       [] \<Rightarrow> ''.''
     | c # cs \<Rightarrow> if c = ''/'' then ''/'' @ join ''/'' cs else join ''/'' p)"

text \<open>
  The order of paths written out: lexicographic over the components, each component
  compared lexicographically by code point.
\<close>

definition path_less :: "fspath \<Rightarrow> fspath \<Rightarrow> bool" where
  "path_less p q = ((p, q) \<in> lexord (lexord {(a, b). (of_char a :: nat) < of_char b}))"

section \<open>Export\<close>

text \<open>
  Modelled from the spec: the source has the export settings (\<open>ExportConfig\<close>) and
  neither an exporter nor a function that runs the pipeline.  The export errors are the
  two the error-handling design names for the exporter.
\<close>

datatype export_error = UnrecognizedExportFormat | ExportWriteFailure

text \<open>
  Modelled from the spec: the extension of the output file, for the three recognised
  formats and for no other.
\<close>

definition extension_of :: "string \<Rightarrow> string option" where
  "extension_of f =
     (if f = ''csv'' then Some ''csv''
      else if f = ''jsonl'' then Some ''jsonl''
      else if f = ''parquet'' then Some ''parquet''
      else None)"

text \<open>
  Modelled from the spec: a record, one row of data, is an ordered mapping from field
  names to values.
\<close>

type_synonym Record = "(string \<times> pyval) list"

text \<open>
  Modelled from the spec: an export request, the last stage of a run.  An unrecognised
  format fails before anything is done; otherwise the output directory is created if
  absent and the one file \<^verbatim>\<open><filename>.<ext>\<close> is written, and a write that does not
  succeed is a write failure.  \<open>write_ok\<close> says which files the filesystem lets be
  written; how the records are laid out in the file is no part of this design.
\<close>

definition export_request ::
  "platform \<Rightarrow> (fspath \<Rightarrow> bool) \<Rightarrow> ExportConfig \<Rightarrow> Record list \<Rightarrow>
     fs_op list \<times> (export_error + fspath)" where
  "export_request pf write_ok spec records =
     (case extension_of (format spec) of
        None \<Rightarrow> ([], Inl UnrecognizedExportFormat)
      | Some ext \<Rightarrow>
          let dir = to_path pf (output_dir spec);
              file = dir @ [filename spec @ ''.'' @ ext]
          in ([OpMkdir dir, OpWrite file],
              if write_ok file then Inr file else Inl ExportWriteFailure))"

section \<open>Record cleaning\<close>

text \<open>
  Modelled from the spec: the source declares the five cleaning flags
  (\<open>CleaningConfig\<close>) and has no cleaning function; \<open>clean\<close> and its five steps follow
  the component design of the record cleaner, in its fixed order.  A record is an ordered
  mapping from field names to values.
\<close>

text \<open>
  Modelled from the spec: the three text operations the steps call (lower-casing a field
  name, stripping whitespace, canonical composed normalisation) are operations of the
  Unicode library; they are parameters of the cleaner.
\<close>

record text_ops =
  to_lower :: "string \<Rightarrow> string"
  strip_ws :: "string \<Rightarrow> string"
  to_nfc :: "string \<Rightarrow> string"

text \<open>
  Modelled from the spec: what the cleaner needs of the text operations.  Each leaves its
  own results unchanged, and normalising a stripped string gives a stripped string.
\<close>

definition text_ops_ok :: "text_ops \<Rightarrow> bool" where
  "text_ops_ok t =
     ((\<forall>s. to_lower t (to_lower t s) = to_lower t s) \<and>
      (\<forall>s. strip_ws t (strip_ws t s) = strip_ws t s) \<and>
      (\<forall>s. to_nfc t (to_nfc t s) = to_nfc t s) \<and>
      (\<forall>s. strip_ws t (to_nfc t (strip_ws t s)) = to_nfc t (strip_ws t s)))"

text \<open>
  Modelled from the spec: the text operations on code points below 256.  The whitespace
  characters there are 9 to 13, 28 to 32, 133 and 160; every such string is already in
  composed normal form.
\<close>

definition is_space :: "char \<Rightarrow> bool" where
  "is_space c = (let n = (of_char c :: nat) in
     (9 \<le> n \<and> n \<le> 13) \<or> (28 \<le> n \<and> n \<le> 32) \<or> n = 133 \<or> n = 160)"

definition py_strip :: "string \<Rightarrow> string" where
  "py_strip s = rev (dropWhile is_space (rev (dropWhile is_space s)))"

definition latin1_ops :: text_ops where
  "latin1_ops = \<lparr>to_lower = py_lower, strip_ws = py_strip, to_nfc = (\<lambda>s. s)\<rparr>"

text \<open>
  Modelled from the spec: step 1, lower-casing the field names of a record.  Writing a
  field whose name is already there replaces its value, so of two fields that collapse
  to one name the later wins.
\<close>

fun put_field :: "string \<Rightarrow> pyval \<Rightarrow> Record \<Rightarrow> Record" where
  "put_field k v [] = [(k, v)]"
| "put_field k v ((k', v') # r) =
     (if k' = k then (k, v) # r else (k', v') # put_field k v r)"

definition lower_record :: "(string \<Rightarrow> string) \<Rightarrow> Record \<Rightarrow> Record" where
  "lower_record lw r = fold (\<lambda>(k, v). put_field (lw k) v) r []"

text \<open>Modelled from the spec: steps 2 and 3 change every string-valued field.\<close>

definition on_string :: "(string \<Rightarrow> string) \<Rightarrow> pyval \<Rightarrow> pyval" where
  "on_string f v = (case v of PStr s \<Rightarrow> PStr (f s) | _ \<Rightarrow> v)"

definition map_strings :: "(string \<Rightarrow> string) \<Rightarrow> Record \<Rightarrow> Record" where
  "map_strings f r = map (\<lambda>(k, v). (k, on_string f v)) r"

text \<open>
  Modelled from the spec: step 4 drops a record all of whose fields are empty (the empty
  string or null; a record without fields has none that is not).
\<close>

definition empty_value :: "pyval \<Rightarrow> bool" where
  "empty_value v = (v = PNone \<or> v = PStr [])"

definition empty_record :: "Record \<Rightarrow> bool" where
  "empty_record r = list_all (\<lambda>(k, v). empty_value v) r"

text \<open>
  Modelled from the spec: step 5 keeps the first occurrence of every record; \<open>seen\<close> are
  the records met so far.
\<close>

fun first_occurrences :: "Record list \<Rightarrow> Record list \<Rightarrow> Record list" where
  "first_occurrences seen [] = []"
| "first_occurrences seen (r # rs) =
     (if r \<in> set seen then first_occurrences seen rs
      else r # first_occurrences (r # seen) rs)"

text \<open>Modelled from the spec: the five steps, each applied when its flag is set.\<close>

definition step_lower_keys :: "text_ops \<Rightarrow> CleaningConfig \<Rightarrow> Record list \<Rightarrow> Record list" where
  "step_lower_keys t opts rs =
     (if lower_keys opts then map (lower_record (to_lower t)) rs else rs)"

definition step_trim_whitespace :: "text_ops \<Rightarrow> CleaningConfig \<Rightarrow> Record list \<Rightarrow> Record list" where
  "step_trim_whitespace t opts rs =
     (if trim_whitespace opts then map (map_strings (strip_ws t)) rs else rs)"

definition step_normalize_unicode :: "text_ops \<Rightarrow> CleaningConfig \<Rightarrow> Record list \<Rightarrow> Record list" where
  "step_normalize_unicode t opts rs =
     (if normalize_unicode opts then map (map_strings (to_nfc t)) rs else rs)"

definition step_remove_empty :: "CleaningConfig \<Rightarrow> Record list \<Rightarrow> Record list" where
  "step_remove_empty opts rs =
     (if remove_empty opts then filter (\<lambda>r. \<not> empty_record r) rs else rs)"

definition step_drop_duplicates :: "CleaningConfig \<Rightarrow> Record list \<Rightarrow> Record list" where
  "step_drop_duplicates opts rs =
     (if drop_duplicates opts then first_occurrences [] rs else rs)"

text \<open>Modelled from the spec: \<^verbatim>\<open>clean(records, options)\<close>, the steps in their fixed order.\<close>

definition clean :: "text_ops \<Rightarrow> Record list \<Rightarrow> CleaningConfig \<Rightarrow> Record list" where
  "clean t records opts =
     step_drop_duplicates opts (step_remove_empty opts
       (step_normalize_unicode t opts (step_trim_whitespace t opts
         (step_lower_keys t opts records))))"

text \<open>What steps 1 to 3 together do to one record.\<close>

definition clean_record :: "text_ops \<Rightarrow> CleaningConfig \<Rightarrow> Record \<Rightarrow> Record" where
  "clean_record t opts r =
     (let a = (if lower_keys opts then lower_record (to_lower t) r else r);
          b = (if trim_whitespace opts then map_strings (strip_ws t) a else a)
      in if normalize_unicode opts then map_strings (to_nfc t) b else b)"

definition example_records :: "Record list" where
  "example_records =
     [[(''A'', PStr '' x ''), (''a'', PStr ''y  '')], [(''a'', PStr ''y'')],
      [(''b'', PStr ''  ''), (''c'', PNone)], [(''n'', PInt 1)]]"

definition example_options :: CleaningConfig where
  "example_options = CleaningConfig_init\<lparr>lower_keys := True\<rparr>"

section \<open>Loading: the defaults and the errors\<close>

lemma and_then_Inr: "and_then (Inr x) f = f x"
  by (simp add: and_then_def)


lemma and_then_Inr_iff:
  "and_then r f = Inr y \<longleftrightarrow> (\<exists>x. r = Inr x \<and> f x = Inr y)"
  by (cases r) (simp_all add: and_then_def)


lemma config_of_empty: "config_of_data (PDict []) = Inr AppConfig_init"
  by (simp add: config_of_data_def parse_sources_def parse_cleaning_def parse_export_def
      and_then_def py_or_def AppConfig_init_def CleaningConfig_init_def ExportConfig_init_def
      py_str_def py_lower_def lower_char_def)

lemma config_file_exists:
  "exists_path (platform_with_document doc) [''config.yaml''] = Inr True"
  by (simp add: exists_path_def platform_with_document_def name_too_long_def)

text \<open>
  C1.  With no configuration path, \<^verbatim>\<open>load_config\<close> touches nothing and returns the
  all-defaults configuration: one source \<^verbatim>\<open>./data/raw\<close> with the three include
  patterns, the cleaning flags all true except \<^verbatim>\<open>lower_keys\<close>, and export format
  \<^verbatim>\<open>parquet\<close> to \<^verbatim>\<open>./data/processed\<close> under the name \<^verbatim>\<open>dataset\<close>.
\<close>

theorem load_config_none_defaults:
  "load_config pf None =
     ([], Inr \<lparr>sources = [\<lparr>path = ''./data/raw'',
                             include' = [PStr ''*.jsonl'', PStr ''*.json'', PStr ''*.csv'']\<rparr>],
               cleaning = \<lparr>drop_duplicates = True, trim_whitespace = True,
                            normalize_unicode = True, remove_empty = True,
                            lower_keys = False\<rparr>,
               export = \<lparr>format = ''parquet'', output_dir = ''./data/processed'',
                          filename = ''dataset''\<rparr>\<rparr>)"
  by (simp add: load_config_def AppConfig_init_def SourceConfig_init_def default_include_def
      CleaningConfig_init_def ExportConfig_init_def)

text \<open>
  C6, as the code has it.  When the configuration path is given, nothing exists there
  and \<^verbatim>\<open>exists()\<close> can tell, \<^verbatim>\<open>load_config\<close> raises \<^verbatim>\<open>FileNotFoundError\<close>; when
  \<^verbatim>\<open>exists()\<close> itself raises, its error ends the call.  Either way the existence test
  is the only thing done: whether the YAML library is installed and what the file would
  hold play no part.
\<close>

theorem load_config_missing_path:
  "(resolve pf p = None \<and> \<not> stat_fails pf p \<longrightarrow>
      load_config pf (Some p) = ([OpExists p], Inl FileNotFoundError)) \<and>
   (stat_fails pf p \<longrightarrow> load_config pf (Some p) = ([OpExists p], Inl OSError))"
  by (simp add: load_config_def exists_path_def)

theorem load_config_missing_path_witness:
  "resolve (platform_with_document PNone) [''missing.yaml''] = None \<and>
   \<not> stat_fails (platform_with_document PNone) [''missing.yaml''] \<and>
   load_config (platform_with_document PNone) (Some [''missing.yaml'']) =
     ([OpExists [''missing.yaml'']], Inl FileNotFoundError) \<and>
   stat_fails (platform_with_document PNone) [long_name] \<and>
   load_config (platform_with_document PNone) (Some [long_name]) =
     ([OpExists [long_name]], Inl OSError)"
proof -
  have a: "resolve (platform_with_document PNone) [''missing.yaml''] = None"
    and b: "\<not> stat_fails (platform_with_document PNone) [''missing.yaml'']"
    and c: "stat_fails (platform_with_document PNone) [long_name]"
    by code_simp+
  show ?thesis
    using load_config_missing_path [of "platform_with_document PNone" "[''missing.yaml'']"]
      load_config_missing_path [of "platform_with_document PNone" "[long_name]"] a b c
    by simp
qed

text \<open>
  Two configuration paths that do not lead to an existing file, for which the call ends
  with another error than \<^verbatim>\<open>FileNotFoundError\<close>: a name of 300 characters, where nothing
  exists and the existence test raises, and a directory, which exists, passes the test
  and cannot be opened for reading.
\<close>

theorem load_config_not_a_file_other_error:
  "resolve (platform_with_document PNone) [long_name] = None \<and>
   load_config (platform_with_document PNone) (Some [long_name]) =
     ([OpExists [long_name]], Inl OSError) \<and>
   resolve (platform_with_document PNone) [''data''] = Some Directory \<and>
   load_config (platform_with_document PNone) (Some [''data'']) =
     ([OpExists [''data''], OpRead [''data'']], Inl OSError) \<and>
   OSError \<noteq> FileNotFoundError"
  by code_simp

text \<open>
  C10.  When the configuration file exists and its document is empty or null (any value
  that \<^verbatim>\<open>or {}\<close> replaces by the empty dictionary), \<^verbatim>\<open>load_config\<close> returns the
  all-defaults configuration, the one \<^verbatim>\<open>load_config(None)\<close> returns, and no error.
\<close>

theorem load_config_empty_document:
  assumes "exists_path pf p = Inr True" and "yaml_installed pf"
    and "read_yaml pf p = Inr doc" and "\<not> truthy doc"
  shows "snd (load_config pf (Some p)) = Inr AppConfig_init \<and>
         snd (load_config pf (Some p)) = snd (load_config pf None)"
  using assms by (simp add: load_config_def py_or_def config_of_empty)

theorem load_config_empty_document_witness:
  "exists_path (platform_with_document PNone) [''config.yaml''] = Inr True \<and>
   yaml_installed (platform_with_document PNone) \<and>
   read_yaml (platform_with_document PNone) [''config.yaml''] = Inr PNone \<and>
   \<not> truthy PNone \<and>
   snd (load_config (platform_with_document PNone) (Some [''config.yaml''])) = Inr AppConfig_init \<and>
   snd (load_config (platform_with_document PNone) (Some [''config.yaml''])) =
     snd (load_config (platform_with_document PNone) None)"
proof -
  have y: "yaml_installed (platform_with_document PNone)"
    and r: "read_yaml (platform_with_document PNone) [''config.yaml''] = Inr PNone"
    by (simp_all add: platform_with_document_def)
  have t: "\<not> truthy PNone" by simp
  show ?thesis
    using load_config_empty_document [OF config_file_exists y r t] config_file_exists y r
    by (simp add: load_config_def)
qed

text \<open>
  C4.  A document whose \<^verbatim>\<open>sources\<close> is a list without a single source object, here
  \<^verbatim>\<open>sources: [a, 1]\<close>, loads with an empty list of sources: the loop skips every entry
  and nothing falls back to the default source.
\<close>

theorem load_config_list_of_non_objects:
  "load_config (platform_with_document (PDict [(PStr ''sources'', PList [PStr ''a'', PInt 1])]))
     (Some [''config.yaml'']) =
   ([OpExists [''config.yaml''], OpRead [''config.yaml'']],
    Inr \<lparr>sources = [], cleaning = CleaningConfig_init, export = ExportConfig_init\<rparr>)"
proof -
  have "read_yaml (platform_with_document (PDict [(PStr ''sources'', PList [PStr ''a'', PInt 1])]))
      [''config.yaml''] = Inr (PDict [(PStr ''sources'', PList [PStr ''a'', PInt 1])])"
    and "yaml_installed (platform_with_document (PDict [(PStr ''sources'', PList [PStr ''a'', PInt 1])]))"
    by (simp_all add: platform_with_document_def)
  then show ?thesis
    by (simp add: load_config_def config_file_exists py_or_def
      config_of_data_def parse_sources_def parse_cleaning_def parse_export_def
      and_then_def CleaningConfig_init_def ExportConfig_init_def
      py_str_def py_lower_def lower_char_def)
qed

section \<open>Export: an unrecognised format\<close>


lemma export_request_recognized:
  assumes "format spec \<in> set recognized_formats"
  shows "fst (export_request pf write_ok spec records) =
     [OpMkdir (to_path pf (output_dir spec)),
      OpWrite (to_path pf (output_dir spec) @ [filename spec @ ''.'' @ format spec])]"
  using assms
  by (auto simp: export_request_def extension_of_def recognized_formats_def Let_def)




section \<open>File discovery: what is returned\<close>

lemma snd_keep_files:
  "snd (keep_files pf ps) =
     (if list_ex (stat_fails pf) ps then Inl OSError
      else Inr (filter (\<lambda>p. resolve pf p = Some RegularFile) ps))"
  by (induction ps) (auto simp: is_file_def and_then_def split: prod.splits)

lemma snd_collect_patterns_Cons:
  "snd (collect_patterns pf base (pat # rest)) =
     (case pattern_error pf pat of
        Some e \<Rightarrow> Inl e
      | None \<Rightarrow> and_then (is_dir pf base) (\<lambda>dir.
          and_then (snd (keep_files pf (if dir then walk pf base pat else []))) (\<lambda>kept.
          and_then (snd (collect_patterns pf base rest)) (\<lambda>hits. Inr (kept @ hits)))))"
proof (cases "pattern_error pf pat")
  case (Some e)
  then show ?thesis by simp
next
  case None
  show ?thesis
  proof (cases "is_dir pf base")
    case (Inl e)
    then show ?thesis using None by (simp add: and_then_def)
  next
    case (Inr dir)
    obtain ops k where k: "keep_files pf (if dir then walk pf base pat else []) = (ops, k)"
      by (cases "keep_files pf (if dir then walk pf base pat else [])")
    obtain ops' r where r: "collect_patterns pf base rest = (ops', r)"
      by (cases "collect_patterns pf base rest")
    show ?thesis
      using None Inr k r by (cases k) (simp_all add: and_then_def)
  qed
qed

lemma snd_collect_sources_Cons:
  "snd (collect_sources pf (src # rest)) =
     and_then (snd (collect_patterns pf (to_path pf (path src)) (patterns_of src))) (\<lambda>hits.
     and_then (snd (collect_sources pf rest)) (\<lambda>hits'. Inr (hits @ hits')))"
  by (simp add: and_then_def split: prod.splits sum.splits)

lemma snd_collect_files:
  "snd (collect_files pf srcs) =
     and_then (snd (collect_sources pf srcs)) (\<lambda>hits. Inr (sorted_list_of_set (set hits)))"
  by (simp add: collect_files_def split: prod.splits)

lemma keep_files_regular:
  "snd (keep_files pf ps) = Inr hs \<Longrightarrow> p \<in> set hs \<Longrightarrow> resolve pf p = Some RegularFile"
  by (auto simp: snd_keep_files split: if_splits)

lemma collect_patterns_files:
  "snd (collect_patterns pf base pats) = Inr hs \<Longrightarrow> p \<in> set hs \<Longrightarrow>
     resolve pf p = Some RegularFile"
proof (induction pats arbitrary: hs)
  case Nil
  then show ?case by simp
next
  case (Cons pat rest)
  from Cons.prems(1) obtain dir kept hits where
    k: "snd (keep_files pf (if dir then walk pf base pat else [])) = Inr kept"
    and r: "snd (collect_patterns pf base rest) = Inr hits"
    and hs: "hs = kept @ hits"
    unfolding snd_collect_patterns_Cons
    by (auto simp: and_then_Inr_iff split: option.splits)
  from Cons.prems(2) hs have "p \<in> set kept \<or> p \<in> set hits" by simp
  then show ?case
    using keep_files_regular [OF k] Cons.IH [OF r] by blast
qed

lemma collect_sources_files:
  "snd (collect_sources pf srcs) = Inr hs \<Longrightarrow> p \<in> set hs \<Longrightarrow>
     resolve pf p = Some RegularFile"
proof (induction srcs arbitrary: hs)
  case Nil
  then show ?case by simp
next
  case (Cons src rest)
  from Cons.prems(1) show ?case
    unfolding snd_collect_sources_Cons
    using Cons.IH Cons.prems(2) collect_patterns_files
    by (auto simp: and_then_Inr_iff)
qed

lemma collect_files_Inr:
  "snd (collect_files pf srcs) = Inr ps \<Longrightarrow>
     \<exists>hs. snd (collect_sources pf srcs) = Inr hs \<and> ps = sorted_list_of_set (set hs)"
  by (auto simp: snd_collect_files and_then_Inr_iff)

lemma path_less_iff: "path_less p q \<longleftrightarrow> p < q"
  by (simp add: path_less_def list_less_def less_char_def)

lemma example_collect:
  "snd (collect_files example_platform example_sources) =
   Inr [[''data'', ''raw'', ''a.csv''], [''data'', ''raw'', ''archive.csv'', ''old.csv''],
        [''data'', ''raw'', ''b.json'']]"
  by code_simp

text \<open>
  C2, as the code has it.  The sequence \<^verbatim>\<open>collect_files\<close> returns holds no path twice and
  is strictly increasing in the order of paths, which is lexicographic over the
  components of a path, each component compared as a string; this whatever the sources
  and the filesystem, also when two patterns or two sources find the same file.
\<close>

theorem collect_files_sorted_unique:
  assumes "snd (collect_files pf srcs) = Inr ps"
  shows "distinct ps \<and> sorted ps \<and> sorted_wrt path_less ps"
proof -
  obtain hs where ps: "ps = sorted_list_of_set (set hs)"
    using collect_files_Inr [OF assms] by blast
  have "sorted_wrt (<) ps"
    unfolding ps by (simp add: strict_sorted_iff [symmetric])
  moreover have "path_less = (<)"
    by (simp add: fun_eq_iff path_less_iff)
  ultimately show ?thesis
    unfolding ps by simp
qed

theorem collect_files_sorted_unique_witness:
  "snd (collect_files example_platform example_sources) =
     Inr [[''data'', ''raw'', ''a.csv''], [''data'', ''raw'', ''archive.csv'', ''old.csv''],
          [''data'', ''raw'', ''b.json'']] \<and>
   distinct [[''data'', ''raw'', ''a.csv''], [''data'', ''raw'', ''archive.csv'', ''old.csv''],
          [''data'', ''raw'', ''b.json'']] \<and>
   sorted_wrt path_less
     [[''data'', ''raw'', ''a.csv''], [''data'', ''raw'', ''archive.csv'', ''old.csv''],
      [''data'', ''raw'', ''b.json'']]"
  using collect_files_sorted_unique [OF example_collect] example_collect by simp

text \<open>
  The order of the components is not the order of the full path strings: with a file
  \<^verbatim>\<open>x.csv\<close> in each of \<^verbatim>\<open>data/raw\<close> and \<^verbatim>\<open>data/raw-2\<close>, the one under \<^verbatim>\<open>raw\<close> is returned
  first, and as a string it is the greater.
\<close>

theorem collect_files_not_in_string_order:
  "snd (collect_files hyphen_platform hyphen_sources) =
     Inr [[''data'', ''raw'', ''x.csv''], [''data'', ''raw-2'', ''x.csv'']] \<and>
   map path_str [[''data'', ''raw'', ''x.csv''], [''data'', ''raw-2'', ''x.csv'']] =
     [''data/raw/x.csv'', ''data/raw-2/x.csv''] \<and>
   ''data/raw-2/x.csv'' < ''data/raw/x.csv'' \<and>
   \<not> sorted (map path_str [[''data'', ''raw'', ''x.csv''], [''data'', ''raw-2'', ''x.csv'']])"
  by code_simp

text \<open>
  C9.  Every path \<^verbatim>\<open>collect_files\<close> returns leads to a regular file; an entry that is a
  directory, or a link to one, is never returned, whatever pattern it matches.
\<close>

theorem collect_files_regular_files:
  assumes "snd (collect_files pf srcs) = Inr ps" and "p \<in> set ps"
  shows "resolve pf p = Some RegularFile \<and> resolve pf p \<noteq> Some Directory"
proof -
  obtain hs where hs: "snd (collect_sources pf srcs) = Inr hs"
    and ps: "ps = sorted_list_of_set (set hs)"
    using collect_files_Inr [OF assms(1)] by blast
  have "p \<in> set hs" using assms(2) ps by simp
  then have "resolve pf p = Some RegularFile" using collect_sources_files [OF hs] by blast
  then show ?thesis by simp
qed

theorem collect_files_regular_files_witness:
  "resolve example_platform [''data'', ''raw'', ''a.csv''] = Some RegularFile \<and>
   resolve example_platform [''data'', ''raw'', ''archive.csv''] = Some Directory \<and>
   [''data'', ''raw'', ''archive.csv''] \<in>
     set (walk example_platform [''data'', ''raw''] (PStr ''*.csv'')) \<and>
   snd (collect_files example_platform example_sources) =
     Inr [[''data'', ''raw'', ''a.csv''], [''data'', ''raw'', ''archive.csv'', ''old.csv''],
          [''data'', ''raw'', ''b.json'']]"
proof -
  have m: "[''data'', ''raw'', ''a.csv''] \<in>
      set [[''data'', ''raw'', ''a.csv''], [''data'', ''raw'', ''archive.csv'', ''old.csv''],
           [''data'', ''raw'', ''b.json'']]"
    by simp
  have d: "resolve example_platform [''data'', ''raw'', ''archive.csv''] = Some Directory"
    by code_simp
  have w: "[''data'', ''raw'', ''archive.csv''] \<in>
      set (walk example_platform [''data'', ''raw''] (PStr ''*.csv''))"
    by code_simp
  show ?thesis
    using collect_files_regular_files [OF example_collect m] d w example_collect by simp
qed

section \<open>File discovery: the order of the directory scan\<close>

lemma same_files_both:
  assumes "same_files k k'" and "same_files r r'"
  shows "same_files (and_then k (\<lambda>a. and_then r (\<lambda>b. Inr (a @ b))))
           (and_then k' (\<lambda>a. and_then r' (\<lambda>b. Inr (a @ b))))"
  using assms by (auto simp: same_files_def and_then_def split: sum.splits)

lemma keep_files_same:
  assumes "resolve pf = resolve pf'" and "stat_fails pf = stat_fails pf'"
    and "set xs = set ys"
  shows "same_files (snd (keep_files pf xs)) (snd (keep_files pf' ys))"
  using assms by (auto simp: snd_keep_files same_files_def list_ex_iff)

lemma collect_patterns_same:
  assumes "resolve pf = resolve pf'" and "stat_fails pf = stat_fails pf'"
    and "pattern_error pf = pattern_error pf'"
    and "\<And>b pat. set (walk pf b pat) = set (walk pf' b pat)"
  shows "same_files (snd (collect_patterns pf base pats)) (snd (collect_patterns pf' base pats))"
proof (induction pats)
  case Nil
  show ?case by (simp add: same_files_def)
next
  case (Cons pat rest)
  have d: "is_dir pf base = is_dir pf' base"
    using assms(1,2) by (simp add: is_dir_def)
  show ?case
  proof (cases "pattern_error pf' pat")
    case (Some e)
    then show ?thesis
      unfolding snd_collect_patterns_Cons using assms(3) by (simp add: same_files_def)
  next
    case None
    show ?thesis
    proof (cases "is_dir pf' base")
      case (Inl e)
      then show ?thesis
        unfolding snd_collect_patterns_Cons
        using None assms(3) d by (simp add: same_files_def and_then_def)
    next
      case (Inr dir)
      have "same_files (snd (keep_files pf (if dir then walk pf base pat else [])))
              (snd (keep_files pf' (if dir then walk pf' base pat else [])))"
        by (rule keep_files_same [OF assms(1,2)]) (simp add: assms(4))
      then show ?thesis
        unfolding snd_collect_patterns_Cons
        using None assms(3) d Inr Cons.IH
        by (simp add: and_then_Inr same_files_both)
    qed
  qed
qed

lemma collect_sources_same:
  assumes "to_path pf = to_path pf'" and "resolve pf = resolve pf'"
    and "stat_fails pf = stat_fails pf'"
    and "pattern_error pf = pattern_error pf'"
    and "\<And>b pat. set (walk pf b pat) = set (walk pf' b pat)"
  shows "same_files (snd (collect_sources pf srcs)) (snd (collect_sources pf' srcs))"
proof (induction srcs)
  case Nil
  show ?case by (simp add: same_files_def)
next
  case (Cons src rest)
  have "same_files (snd (collect_patterns pf (to_path pf' (path src)) (patterns_of src)))
          (snd (collect_patterns pf' (to_path pf' (path src)) (patterns_of src)))"
    by (rule collect_patterns_same [OF assms(2,3,4,5)])
  with Cons.IH show ?case
    unfolding snd_collect_sources_Cons assms(1)
    by (rule same_files_both [rotated])
qed

text \<open>
  C8.  Two calls of \<^verbatim>\<open>collect_files\<close> on the same sources over the same tree have the same
  outcome, the identical sequence of paths or the same exception: the outcome is a
  function of the sources and the tree, and the order in which a directory scan yields
  its entries, the one thing that can differ between two runs over an unchanged tree,
  has no part in it.
\<close>

theorem collect_files_deterministic:
  assumes "to_path pf = to_path pf'" and "resolve pf = resolve pf'"
    and "stat_fails pf = stat_fails pf'"
    and "pattern_error pf = pattern_error pf'"
    and "\<forall>b pat. set (walk pf b pat) = set (walk pf' b pat)"
  shows "snd (collect_files pf srcs) = snd (collect_files pf' srcs)"
proof -
  have "same_files (snd (collect_sources pf srcs)) (snd (collect_sources pf' srcs))"
    using assms by (intro collect_sources_same) auto
  then show ?thesis
    unfolding snd_collect_files
    by (auto simp: same_files_def and_then_def split: sum.splits)
qed

theorem collect_files_deterministic_witness:
  "to_path example_platform = to_path example_platform_reversed \<and>
   resolve example_platform = resolve example_platform_reversed \<and>
   stat_fails example_platform = stat_fails example_platform_reversed \<and>
   pattern_error example_platform = pattern_error example_platform_reversed \<and>
   (\<forall>b pat. set (walk example_platform b pat) = set (walk example_platform_reversed b pat)) \<and>
   walk example_platform [''data'', ''raw''] (PStr ''*.csv'') \<noteq>
     walk example_platform_reversed [''data'', ''raw''] (PStr ''*.csv'') \<and>
   snd (collect_files example_platform example_sources) =
     snd (collect_files example_platform_reversed example_sources)"
proof -
  have a: "to_path example_platform = to_path example_platform_reversed"
    and b: "resolve example_platform = resolve example_platform_reversed"
    and s: "stat_fails example_platform = stat_fails example_platform_reversed"
    and c: "pattern_error example_platform = pattern_error example_platform_reversed"
    and d: "\<forall>b pat. set (walk example_platform b pat) =
              set (walk example_platform_reversed b pat)"
    by (simp_all add: example_platform_reversed_def)
  have e: "walk example_platform [''data'', ''raw''] (PStr ''*.csv'') \<noteq>
     walk example_platform_reversed [''data'', ''raw''] (PStr ''*.csv'')"
    by code_simp
  show ?thesis
    using collect_files_deterministic [OF a b s c d, of example_sources] a b s c d e by simp
qed

section \<open>File discovery: a missing root\<close>













section \<open>Record cleaning: applying it twice\<close>

lemma lower_char_idem: "lower_char (lower_char c) = lower_char c"
  by (auto simp: lower_char_def Let_def)

lemma py_lower_idem: "py_lower (py_lower s) = py_lower s"
  by (simp add: py_lower_def lower_char_idem)

lemma dropWhile_fixed: "xs = [] \<or> \<not> P (hd xs) \<Longrightarrow> dropWhile P xs = xs"
  by (cases xs) auto

lemma dropWhile_head: "dropWhile P xs = [] \<or> \<not> P (hd (dropWhile P xs))"
  by (metis hd_dropWhile)

lemma rstrip_head:
  assumes "xs = [] \<or> \<not> P (hd xs)"
  shows "rev (dropWhile P (rev xs)) = [] \<or> \<not> P (hd (rev (dropWhile P (rev xs))))"
proof (cases xs)
  case Nil
  then show ?thesis by simp
next
  case (Cons x t)
  with assms have nx: "\<not> P x" by simp
  have "rev xs = rev t @ [x]" using Cons by simp
  then have "dropWhile P (rev xs) = dropWhile P (rev t) @ [x]"
    using nx by (simp add: dropWhile_append)
  then have "rev (dropWhile P (rev xs)) = x # rev (dropWhile P (rev t))" by simp
  then show ?thesis using nx by simp
qed

lemma py_strip_idem: "py_strip (py_strip s) = py_strip s"
proof -
  let ?t = "dropWhile is_space s"
  let ?u = "rev (dropWhile is_space (rev ?t))"
  have "?u = [] \<or> \<not> is_space (hd ?u)"
    by (rule rstrip_head) (rule dropWhile_head)
  then have a: "dropWhile is_space ?u = ?u" by (rule dropWhile_fixed)
  have b: "dropWhile is_space (rev ?u) = rev ?u"
    by simp
  show ?thesis unfolding py_strip_def a b by simp
qed

lemma latin1_ops_ok: "text_ops_ok latin1_ops"
  by (simp add: text_ops_ok_def latin1_ops_def py_lower_idem py_strip_idem)

lemma keys_put_field: "fst ` set (put_field k v r) = insert k (fst ` set r)"
proof (induction r)
  case Nil
  then show ?case by simp
next
  case (Cons a r)
  obtain k' v' where a: "a = (k', v')" by (cases a)
  show ?case
  proof (cases "k' = k")
    case True
    then show ?thesis using a by simp
  next
    case False
    then show ?thesis using a Cons.IH by (simp add: insert_commute)
  qed
qed

lemma distinct_put_field: "distinct (map fst r) \<Longrightarrow> distinct (map fst (put_field k v r))"
  by (induction r) (auto simp: keys_put_field)

lemma put_field_new: "k \<notin> fst ` set r \<Longrightarrow> put_field k v r = r @ [(k, v)]"
  by (induction r) auto

lemma fold_put_keys:
  "fst ` set (fold (\<lambda>(k, v). put_field (lw k) v) r acc) =
     lw ` fst ` set r \<union> fst ` set acc"
proof (induction r arbitrary: acc)
  case Nil
  then show ?case by simp
next
  case (Cons kv r)
  obtain k v where kv: "kv = (k, v)" by (cases kv)
  show ?case
    using Cons.IH [of "put_field (lw k) v acc"] kv
    by (auto simp: keys_put_field)
qed

lemma fold_put_distinct:
  "distinct (map fst acc) \<Longrightarrow> distinct (map fst (fold (\<lambda>(k, v). put_field (lw k) v) r acc))"
  by (induction r arbitrary: acc) (auto simp: distinct_put_field split: prod.splits)

lemma fold_put_fixed:
  assumes "distinct (map fst r)" and "\<forall>k \<in> fst ` set r. lw k = k"
    and "fst ` set r \<inter> fst ` set acc = {}"
  shows "fold (\<lambda>(k, v). put_field (lw k) v) r acc = acc @ r"
  using assms
proof (induction r arbitrary: acc)
  case Nil
  then show ?case by simp
next
  case (Cons kv r)
  obtain k v where kv: "kv = (k, v)" by (cases kv)
  have lk: "lw k = k" using Cons.prems(2) kv by simp
  have new: "k \<notin> fst ` set acc" using Cons.prems(3) kv by auto
  have step: "put_field (lw k) v acc = acc @ [(k, v)]"
    using new lk by (simp add: put_field_new)
  have "fold (\<lambda>(k, v). put_field (lw k) v) r (acc @ [(k, v)]) = (acc @ [(k, v)]) @ r"
  proof (rule Cons.IH)
    show "distinct (map fst r)" using Cons.prems(1) by simp
    show "\<forall>k \<in> fst ` set r. lw k = k" using Cons.prems(2) by simp
    show "fst ` set r \<inter> fst ` set (acc @ [(k, v)]) = {}"
      using Cons.prems(1,3) kv by auto
  qed
  then show ?case using kv step by simp
qed

lemma lower_record_idem:
  assumes "\<forall>s. lw (lw s) = lw s"
  shows "lower_record lw (lower_record lw r) = lower_record lw r"
proof -
  let ?r = "lower_record lw r"
  have d: "distinct (map fst ?r)"
    unfolding lower_record_def by (rule fold_put_distinct) simp
  have "fst ` set ?r = lw ` fst ` set r"
    unfolding lower_record_def by (simp add: fold_put_keys)
  then have f: "\<forall>k \<in> fst ` set ?r. lw k = k" using assms by auto
  have "fold (\<lambda>(k, v). put_field (lw k) v) ?r [] = [] @ ?r"
    by (rule fold_put_fixed [OF d f]) simp
  then show ?thesis by (simp add: lower_record_def)
qed

lemma put_field_map_strings:
  "put_field k (on_string f v) (map_strings f r) = map_strings f (put_field k v r)"
  by (induction r) (auto simp: map_strings_def)

lemma fold_put_map_strings:
  "fold (\<lambda>(k, v). put_field (lw k) v) (map_strings f r) (map_strings f acc) =
     map_strings f (fold (\<lambda>(k, v). put_field (lw k) v) r acc)"
proof (induction r arbitrary: acc)
  case Nil
  then show ?case by (simp add: map_strings_def)
next
  case (Cons kv r)
  obtain k v where kv: "kv = (k, v)" by (cases kv)
  have "map_strings f (kv # r) = (k, on_string f v) # map_strings f r"
    using kv by (simp add: map_strings_def)
  then show ?case
    using Cons.IH [of "put_field (lw k) v acc"] kv
    by (simp add: put_field_map_strings)
qed

lemma lower_record_map_strings:
  "lower_record lw (map_strings f r) = map_strings f (lower_record lw r)"
  using fold_put_map_strings [of lw f r "[]"]
  by (simp add: lower_record_def map_strings_def)

lemma map_strings_comp:
  "map_strings f (map_strings g r) = map_strings (\<lambda>s. f (g s)) r"
  by (induction r) (auto simp: map_strings_def on_string_def split: pyval.splits)

lemma clean_record_idem:
  assumes "text_ops_ok t"
  shows "clean_record t opts (clean_record t opts r) = clean_record t opts r"
proof -
  have l: "\<forall>s. to_lower t (to_lower t s) = to_lower t s"
    and s: "\<And>x. strip_ws t (strip_ws t x) = strip_ws t x"
    and n: "\<And>x. to_nfc t (to_nfc t x) = to_nfc t x"
    and sn: "\<And>x. strip_ws t (to_nfc t (strip_ws t x)) = to_nfc t (strip_ws t x)"
    using assms by (simp_all add: text_ops_ok_def)
  note li = lower_record_idem [OF l]
  show ?thesis
    by (simp add: clean_record_def Let_def li lower_record_map_strings map_strings_comp s n sn)
qed

lemma steps_as_map:
  "step_normalize_unicode t opts (step_trim_whitespace t opts (step_lower_keys t opts rs)) =
     map (clean_record t opts) rs"
  by (induction rs)
     (simp_all add: step_normalize_unicode_def step_trim_whitespace_def step_lower_keys_def
        clean_record_def Let_def)

lemma first_occurrences_set: "set (first_occurrences seen rs) = set rs - set seen"
  by (induction rs arbitrary: seen) auto

lemma first_occurrences_distinct: "distinct (first_occurrences seen rs)"
  by (induction rs arbitrary: seen) (auto simp: first_occurrences_set)

lemma first_occurrences_fixed:
  "distinct rs \<Longrightarrow> set rs \<inter> set seen = {} \<Longrightarrow> first_occurrences seen rs = rs"
  by (induction rs arbitrary: seen) auto

lemma step_drop_duplicates_idem:
  "step_drop_duplicates opts (step_drop_duplicates opts rs) = step_drop_duplicates opts rs"
  by (simp add: step_drop_duplicates_def first_occurrences_fixed first_occurrences_distinct)

lemma step_drop_duplicates_subset: "set (step_drop_duplicates opts rs) \<subseteq> set rs"
  by (simp add: step_drop_duplicates_def first_occurrences_set)

lemma step_remove_empty_subset: "set (step_remove_empty opts rs) \<subseteq> set rs"
  by (simp add: step_remove_empty_def)

lemma step_remove_empty_fixed:
  "set ys \<subseteq> set (step_remove_empty opts rs) \<Longrightarrow> step_remove_empty opts ys = ys"
  by (auto simp: step_remove_empty_def filter_id_conv)

lemma map_fixed: "(\<And>x. x \<in> set xs \<Longrightarrow> f x = x) \<Longrightarrow> map f xs = xs"
  by (induction xs) auto

lemma example_clean:
  "clean latin1_ops example_records example_options =
     [[(''a'', PStr ''y'')], [(''n'', PInt 1)]]"
  by code_simp

text \<open>
  C5.  Cleaning twice is cleaning once, for every sequence of records and every
  combination of the five flags: \<open>clean (clean rs opts) opts = clean rs opts\<close>, for text
  operations that leave their own results unchanged.
\<close>

theorem clean_idempotent:
  assumes "text_ops_ok t"
  shows "clean t (clean t records opts) opts = clean t records opts"
proof -
  let ?m = "map (clean_record t opts) records"
  let ?e = "step_remove_empty opts ?m"
  let ?d = "step_drop_duplicates opts ?e"
  have c: "clean t records opts = ?d"
    by (simp add: clean_def steps_as_map)
  have sub: "set ?d \<subseteq> set ?e" by (rule step_drop_duplicates_subset)
  have "set ?d \<subseteq> set ?m" using sub step_remove_empty_subset by blast
  then have "\<And>r. r \<in> set ?d \<Longrightarrow> clean_record t opts r = r"
    using clean_record_idem [OF assms] by auto
  then have m: "map (clean_record t opts) ?d = ?d" by (rule map_fixed)
  have e: "step_remove_empty opts ?d = ?d"
    by (rule step_remove_empty_fixed [OF sub])
  have "clean t ?d opts =
      step_drop_duplicates opts (step_remove_empty opts (map (clean_record t opts) ?d))"
    by (simp add: clean_def steps_as_map)
  also have "\<dots> = ?d" by (simp only: m e step_drop_duplicates_idem)
  finally show ?thesis by (simp only: c)
qed

theorem clean_idempotent_witness:
  "text_ops_ok latin1_ops \<and>
   clean latin1_ops example_records example_options =
     [[(''a'', PStr ''y'')], [(''n'', PInt 1)]] \<and>
   clean latin1_ops (clean latin1_ops example_records example_options) example_options =
     clean latin1_ops example_records example_options"
  using clean_idempotent [OF latin1_ops_ok, of example_records example_options]
    latin1_ops_ok example_clean
  by simp

end
